theory Spec2Isabelle
  imports Complex_Main "HOL-Library.Word"
begin

section \<open>The ancestry tracker of fwdpy11\_arg\_example\<close>

text \<open>
  A shallow embedding of \<^verbatim>\<open>struct ancestry_tracker\<close>
  (\<^verbatim>\<open>fwdpy11_arg_example/ancestry_tracker.hpp\<close>): the book-keeper that records the
  nodes and edges of a forward simulation, hands them to msprime and cleans up after
  the simplification. Every member function becomes a function on a record of the
  struct's fields that returns the updated record.
\<close>

subsection \<open>Nodes and edges\<close>

text \<open>
  Modelled from the spec: \<^verbatim>\<open>node.hpp\<close> and \<^verbatim>\<open>edge.hpp\<close> (the declarations of
  \<^verbatim>\<open>node\<close>, \<^verbatim>\<open>edge\<close>, \<^verbatim>\<open>make_node\<close> and \<^verbatim>\<open>make_edge\<close>) are not among the sources.
  The spec gives a node an integer id, a numeric time and an integer population label,
  and an edge a left and a right breakpoint and the ids of parent and child.

  \<^verbatim>\<open>integer_type\<close> is \<^verbatim>\<open>decltype(edge::parent)\<close>, a fixed-width integer whose width the
  sources do not give: it is the type parameter \<open>'w\<close>, and a value of
  \<^verbatim>\<open>integer_type\<close> is a word of \<open>LENGTH('w)\<close> bits. Its arithmetic wraps around (the
  spec's "silent wraparound"). It is read as a signed, two's complement value
  (\<open>sint\<close>, \<open>word_sless\<close>): the constructor casts it to \<^verbatim>\<open>std::uint32_t\<close>, and
  \<^verbatim>\<open>get_parent_ids\<close> casts a \<^verbatim>\<open>std::uint32_t\<close> to it. Ids and population labels of
  nodes have this type.

  \<^verbatim>\<open>decltype(node::generation)\<close> is the type of the literals \<^verbatim>\<open>0.0\<close> and \<^verbatim>\<open>-1.0\<close>
  of the header; it holds generation counts, on which subtraction and negation are
  exact, and is \<open>real\<close> here. The field \<^verbatim>\<open>generation\<close> of a node is called
  \<open>node_generation\<close>, since the tracker has a field \<^verbatim>\<open>generation\<close> of its own.
  The arguments of \<^verbatim>\<open>make_node\<close> are id, time and population, as the constructor's
  comment on its call says; those of \<^verbatim>\<open>make_edge\<close> are left, right, parent and child,
  in the order \<^verbatim>\<open>add_edges\<close> passes them.
\<close>

type_synonym 'w integer_type = "'w word"

record (overloaded) ('w::len) node =
  node_id :: "'w integer_type"
  node_generation :: real
  node_population :: "'w integer_type"

record (overloaded) ('w::len) edge =
  left :: real
  right :: real
  parent :: "'w integer_type"
  child :: "'w integer_type"

definition make_node :: "'w::len integer_type \<Rightarrow> real \<Rightarrow> 'w integer_type \<Rightarrow> 'w node" where
  "make_node i g p = \<lparr>node_id = i, node_generation = g, node_population = p\<rparr>"

definition make_edge ::
  "real \<Rightarrow> real \<Rightarrow> 'w::len integer_type \<Rightarrow> 'w integer_type \<Rightarrow> 'w edge" where
  "make_edge l r p c = \<lparr>left = l, right = r, parent = p, child = c\<rparr>"

subsection \<open>The tracker\<close>

text \<open>
  The fields of the struct, in its order. \<^verbatim>\<open>lastN\<close> is a \<^verbatim>\<open>std::uint32_t\<close>: a
  32-bit word, and a value of \<^verbatim>\<open>integer_type\<close> stored in it is converted modulo
  \<open>2^32\<close> (\<open>scast\<close>).
\<close>

record (overloaded) ('w::len) tracker =
  nodes :: "'w node list"
  edges :: "'w edge list"
  temp :: "'w edge list"
  offspring_indexes :: "'w integer_type list"
  generation :: "'w integer_type"
  next_index :: "'w integer_type"
  first_parental_index :: "'w integer_type"
  lastN :: "32 word"
  last_gc_time :: real

text \<open>
  What a member function can run into: \<^verbatim>\<open>reserve\<close> with a negative count (converted
  to a \<^verbatim>\<open>size_type\<close> beyond \<^verbatim>\<open>max_size()\<close>) throws \<^verbatim>\<open>std::length_error\<close>, and a
  read of a vector outside its elements is undefined behaviour. Running out of memory is
  not modelled.
\<close>

datatype fault = LengthError | OutOfBounds

text \<open>
  Reading a vector at an index is defined for the indices below its size only, and
  \<^verbatim>\<open>std::vector::front()\<close> reads at index 0. The one read of a vector at an index in
  \<^verbatim>\<open>finish_generation\<close>, \<^verbatim>\<open>offspring_indexes.front()\<close>, goes through these.
\<close>

definition read_at :: "'a list \<Rightarrow> nat \<Rightarrow> fault + 'a" where
  "read_at v i = (if i < length v then Inr (v ! i) else Inl OutOfBounds)"

definition front :: "'a list \<Rightarrow> fault + 'a" where
  "front v = read_at v 0"

text \<open>
  The constructor's loop \<^verbatim>\<open>for (integer_type i = 0; i < 2 * N; ++i)\<close>, with the
  vector of nodes built so far as accumulator. The comparison is the signed one, and
  \<^verbatim>\<open>++i\<close> cannot wrap while \<open>i\<close> is below \<open>n\<close>.
\<close>

function init_nodes ::
  "'w::len integer_type \<Rightarrow> 'w integer_type \<Rightarrow> 'w node list \<Rightarrow> 'w node list" where
  "init_nodes i n acc =
     (if word_sless i n then init_nodes (i + 1) n (acc @ [make_node i 0 0]) else acc)"
  by pat_completeness auto
termination
proof (relation "measure (\<lambda>(i, n, acc). nat (sint n - sint i))")
  show "wf (measure (\<lambda>(i :: 'w::len word, n :: 'w word, acc :: 'w node list).
      nat (sint n - sint i)))"
    by simp
next
  fix i n :: "'w::len word" and acc :: "'w node list"
  assume "word_sless i n"
  then have less: "sint i < sint n"
    by (simp add: word_sless_alt)
  have "sint n < 2 ^ (LENGTH('w) - 1)"
    by (rule sint_lt)
  with less have hi: "sint i + 1 < 2 ^ (LENGTH('w) - 1)"
    by simp
  have "- (2 ^ (LENGTH('w) - 1)) \<le> sint i"
    by (rule sint_ge)
  then have lo: "- (2 ^ (LENGTH('w) - 1)) \<le> sint i + 1"
    by simp
  have "i + 1 = word_of_int (sint i + 1)"
    by simp
  then have "sint (i + 1) = sint (word_of_int (sint i + 1) :: 'w word)"
    by simp
  also from lo hi have "\<dots> = sint i + 1"
    by (simp only: sint_sbintrunc' signed_take_bit_int_eq_self)
  finally have "sint (i + 1) = sint i + 1" .
  with less show "((i + 1, n, acc @ [make_node i 0 0]), (i, n, acc))
      \<in> measure (\<lambda>(i, n, acc). nat (sint n - sint i))"
    by simp
qed

declare init_nodes.simps [simp del]

text \<open>
  The constructor. \<^verbatim>\<open>nodes.reserve(2 * N)\<close> and \<^verbatim>\<open>edges.reserve(2 * N)\<close> throw when
  \<open>2 * N\<close>, computed in \<^verbatim>\<open>integer_type\<close>, is negative, and \<^verbatim>\<open>temp.reserve(N)\<close> when
  \<open>N\<close> is.
\<close>

definition ancestry_tracker :: "'w::len integer_type \<Rightarrow> fault + 'w tracker" where
  "ancestry_tracker N =
     (if sint (2 * N) < 0 \<or> sint N < 0 then Inl LengthError
      else Inr \<lparr>nodes = init_nodes 0 (2 * N) [],
                edges = [],
                temp = [],
                offspring_indexes = [],
                generation = 1,
                next_index = 2 * N,
                first_parental_index = 0,
                lastN = scast N,
                last_gc_time = 0\<rparr>)"

text \<open>
  \<^verbatim>\<open>get_parent_ids(const std::uint32_t p, const int did_swap)\<close>: \<open>p\<close> is cast to
  \<^verbatim>\<open>integer_type\<close> (\<open>ucast\<close>), \<^verbatim>\<open>did_swap\<close> is added as the integer it is, and
  \<^verbatim>\<open>!did_swap\<close> is 1 for 0 and 0 for anything else.
\<close>

definition get_parent_ids ::
  "'w::len tracker \<Rightarrow> 32 word \<Rightarrow> int \<Rightarrow> 'w integer_type \<times> 'w integer_type" where
  "get_parent_ids s p did_swap =
     (first_parental_index s + 2 * ucast p + word_of_int did_swap,
      first_parental_index s + 2 * ucast p + (if did_swap = 0 then 1 else 0))"

definition get_next_indexes ::
  "'w::len tracker \<Rightarrow> ('w integer_type \<times> 'w integer_type) \<times> 'w tracker" where
  "get_next_indexes s =
     (let rv = (next_index s, next_index s + 1)
      in (rv, s\<lparr>next_index := next_index s + 2,
                offspring_indexes := offspring_indexes s @ [fst rv, snd rv]\<rparr>))"

definition add_edges ::
  "'w::len tracker \<Rightarrow> (real \<times> real) list \<Rightarrow> 'w integer_type \<Rightarrow> 'w integer_type \<Rightarrow> 'w tracker"
  where
  "add_edges s breakpoints p c =
     s\<lparr>temp := temp s @ map (\<lambda>bi. make_edge (fst bi) (snd bi) p c) breakpoints\<rparr>"

text \<open>
  \<^verbatim>\<open>finish_generation\<close>: the loop over \<^verbatim>\<open>offspring_indexes\<close> visits the elements the
  vector has, and \<^verbatim>\<open>offspring_indexes.front()\<close> is the one read at an index. The
  generation counter becomes the time of a node by conversion of its signed value. The
  function clears \<^verbatim>\<open>temp\<close> and nothing else.
\<close>

definition finish_generation :: "'w::len tracker \<Rightarrow> fault + 'w tracker" where
  "finish_generation s =
     (case front (offspring_indexes s) of
        Inl e \<Rightarrow> Inl e
      | Inr first \<Rightarrow>
          Inr (s\<lparr>nodes := nodes s
                     @ map (\<lambda>oi. make_node oi (of_int (sint (generation s))) 0)
                         (offspring_indexes s),
                 edges := edges s @ temp s,
                 lastN := scast (next_index s - first_parental_index s),
                 first_parental_index := first,
                 temp := [],
                 generation := generation s + 1\<rparr>))"

text \<open>
  \<^verbatim>\<open>prep_for_gc\<close>: \<^verbatim>\<open>max_gen\<close> is the time of the last node, \<^verbatim>\<open>nodes.back().generation\<close>.
\<close>

definition prep_for_gc :: "'w::len tracker \<Rightarrow> 'w tracker" where
  "prep_for_gc s =
     (if nodes s = [] then s
      else let max_gen = node_generation (last (nodes s))
           in s\<lparr>nodes := map (\<lambda>n. n\<lparr>node_generation := (node_generation n - max_gen) * (- 1)\<rparr>)
                               (nodes s)\<rparr>)"

text \<open>
  \<^verbatim>\<open>post_process_gc(pybind11::tuple t)\<close>: the tuple is taken as decoded, \<open>gc\<close> for
  \<^verbatim>\<open>t[0].cast<bool>()\<close> and \<open>idx\<close> for \<^verbatim>\<open>t[1].cast<integer_type>()\<close>, which the code
  reads only when \<open>gc\<close> holds.
\<close>

definition post_process_gc :: "'w::len tracker \<Rightarrow> bool \<Rightarrow> 'w integer_type \<Rightarrow> 'w tracker" where
  "post_process_gc s gc idx =
     (if \<not> gc then s
      else s\<lparr>last_gc_time := of_int (sint (generation s)),
             next_index := idx,
             first_parental_index := 0,
             nodes := [],
             edges := []\<rparr>)"

subsection \<open>Sequences of calls\<close>

text \<open>
  The driver calls the member functions one after the other on one tracker. A call that
  only reads (\<^verbatim>\<open>get_parent_ids\<close>) leaves the state as it is. The parameter \<open>'i\<close> of
  a call is the type of the identities it carries, \<^verbatim>\<open>integer_type\<close>.
\<close>

datatype 'i call =
    GetParentIds "32 word" int
  | GetNextIndexes
  | AddEdges "(real \<times> real) list" 'i 'i
  | FinishGeneration
  | PrepForGc
  | PostProcessGc bool 'i

fun apply_call :: "'w::len tracker \<Rightarrow> 'w integer_type call \<Rightarrow> fault + 'w tracker" where
  "apply_call s (GetParentIds p did_swap) = Inr s"
| "apply_call s GetNextIndexes = Inr (snd (get_next_indexes s))"
| "apply_call s (AddEdges bs p c) = Inr (add_edges s bs p c)"
| "apply_call s FinishGeneration = finish_generation s"
| "apply_call s PrepForGc = Inr (prep_for_gc s)"
| "apply_call s (PostProcessGc gc idx) = Inr (post_process_gc s gc idx)"

fun run ::
  "fault + 'w::len tracker \<Rightarrow> 'w integer_type call list \<Rightarrow> fault + 'w tracker" where
  "run r [] = r"
| "run (Inl e) (c # cs) = Inl e"
| "run (Inr s) (c # cs) = run (apply_call s c) cs"



text \<open>\<^verbatim>\<open>get_next_indexes\<close> called \<open>k\<close> times in a row, with the pairs it returned in order.\<close>

fun get_next_indexes_n ::
  "nat \<Rightarrow> 'w::len tracker \<Rightarrow> ('w integer_type \<times> 'w integer_type) list \<times> 'w tracker" where
  "get_next_indexes_n 0 s = ([], s)"
| "get_next_indexes_n (Suc k) s =
     (let (rv, s1) = get_next_indexes s;
          (rvs, s2) = get_next_indexes_n k s1
      in (rv # rvs, s2))"

text \<open>The identities of a list of returned pairs, in the order they were handed out.\<close>

fun identities :: "('a \<times> 'a) list \<Rightarrow> 'a list" where
  "identities [] = []"
| "identities ((a, b) # rvs) = a # b # identities rvs"

subsection \<open>The prepare phase as the spec words it\<close>

text \<open>
  The spec's prepare phase, for comparison with \<^verbatim>\<open>prep_for_gc\<close>: no-op on an empty
  node store, otherwise "find the maximum time value across all nodes, then for every
  node set \<open>time = -(time - max_time)\<close>".
\<close>

definition spec_prepare_for_simplification :: "'w::len tracker \<Rightarrow> 'w tracker" where
  "spec_prepare_for_simplification s =
     (if nodes s = [] then s
      else let max_time = Max (set (map node_generation (nodes s)))
           in s\<lparr>nodes := map (\<lambda>n. n\<lparr>node_generation := - (node_generation n - max_time)\<rparr>)
                               (nodes s)\<rparr>)"

section \<open>Properties\<close>

subsection \<open>Helper facts\<close>

lemma sint_word_of_int_eq:
  "- (2 ^ (LENGTH('w) - 1)) \<le> x \<Longrightarrow> x < 2 ^ (LENGTH('w) - 1)
    \<Longrightarrow> sint (word_of_int x :: 'w::len word) = x"
  by (simp only: sint_sbintrunc' signed_take_bit_int_eq_self)

lemma sint_add_of_nat:
  fixes n :: "'w::len word"
  assumes "sint n + int i < 2 ^ (LENGTH('w) - 1)"
  shows "sint (n + of_nat i) = sint n + int i"
proof -
  have "- (2 ^ (LENGTH('w) - 1)) \<le> sint n"
    by (rule sint_ge)
  then have lo: "- (2 ^ (LENGTH('w) - 1)) \<le> sint n + int i"
    by simp
  have "word_of_int (sint n + int i) = n + of_nat i"
    by (simp only: of_int_add of_int_of_nat_eq of_int_sint scast_id)
  with sint_word_of_int_eq [OF lo assms] show ?thesis
    by (simp only:)
qed

lemma sint_succ:
  fixes i n :: "'w::len word"
  assumes "word_sless i n"
  shows "sint (i + 1) = sint i + 1"
proof -
  from assms have "sint i < sint n"
    by (simp add: word_sless_alt)
  with sint_lt [of n] have "sint i + int 1 < 2 ^ (LENGTH('w) - 1)"
    by simp
  from sint_add_of_nat [OF this] show ?thesis
    by (simp only: of_nat_1)
qed

lemma init_nodes_eq:
  "init_nodes i n acc = acc @ map (\<lambda>j. make_node (word_of_int j) 0 0) [sint i..sint n - 1]"
proof (induction i n acc rule: init_nodes.induct)
  case (1 i n acc)
  show ?case
  proof (cases "word_sless i n")
    case True
    then have less: "sint i < sint n"
      by (simp add: word_sless_alt)
    then have "[sint i..sint n - 1] = sint i # [sint i + 1..sint n - 1]"
      by (simp add: upto_rec1)
    with True "1" sint_succ [OF True] show ?thesis
      by (simp add: init_nodes.simps [of i n acc])
  next
    case False
    then have "\<not> sint i < sint n"
      by (simp add: word_sless_alt)
    with False show ?thesis
      by (simp add: init_nodes.simps [of i n acc])
  qed
qed

lemma sint_double:
  fixes N :: "'w::len word"
  assumes "0 \<le> sint N" and "2 * sint N < 2 ^ (LENGTH('w) - 1)"
  shows "sint (2 * N) = 2 * sint N"
proof -
  from assms(1) have nat: "int (nat (sint N)) = sint N"
    by simp
  have "(of_nat (nat (sint N)) :: 'w word) = word_of_int (int (nat (sint N)))"
    by (simp only: of_int_of_nat_eq)
  also have "\<dots> = N"
    by (simp only: nat of_int_sint scast_id)
  finally have "N + of_nat (nat (sint N)) = 2 * N"
    by (simp only: mult_2)
  moreover from assms(2) nat have "sint N + int (nat (sint N)) < 2 ^ (LENGTH('w) - 1)"
    by simp
  ultimately show ?thesis
    using sint_add_of_nat [of N "nat (sint N)"] nat by simp
qed

lemma ancestry_tracker_nodes:
  fixes N :: "'w::len word"
  assumes "0 \<le> sint N" and "2 * sint N < 2 ^ (LENGTH('w) - 1)"
  shows "ancestry_tracker N =
     Inr \<lparr>nodes = map (\<lambda>j. make_node (word_of_int j) 0 0) [0..2 * sint N - 1], edges = [],
          temp = [], offspring_indexes = [], generation = 1, next_index = 2 * N,
          first_parental_index = 0, lastN = scast N, last_gc_time = 0\<rparr>"
  using assms sint_double [OF assms]
  by (simp add: ancestry_tracker_def init_nodes_eq)

lemma founders_ids:
  fixes N :: "'w::len word"
  assumes "2 * sint N < 2 ^ (LENGTH('w) - 1)"
  shows "map (\<lambda>j. sint (word_of_int j :: 'w word)) [0..2 * sint N - 1] = [0..2 * sint N - 1]"
proof -
  have "sint (word_of_int j :: 'w word) = j" if "j \<in> set [0..2 * sint N - 1]" for j
  proof (rule sint_word_of_int_eq)
    from that have "0 \<le> j" by simp
    moreover have "- (2 ^ (LENGTH('w) - 1)) \<le> (0::int)" by simp
    ultimately show "- (2 ^ (LENGTH('w) - 1)) \<le> j" by (rule order_trans [rotated])
    from that assms show "j < 2 ^ (LENGTH('w) - 1)" by simp
  qed
  then show ?thesis
    by (intro map_idI)
qed

lemma distinct_of_sint:
  "distinct (map sint xs) \<Longrightarrow> distinct xs"
  by (simp add: distinct_map)

lemma sorted_of_sint:
  "sorted_wrt (<) (map sint xs) \<Longrightarrow> sorted_wrt word_sless xs"
  by (simp add: sorted_wrt_map word_sless_alt [abs_def])

lemma founders_1:
  "ancestry_tracker (1 :: 32 word) =
     Inr \<lparr>nodes = [make_node 0 0 0, make_node 1 0 0], edges = [], temp = [],
        offspring_indexes = [] :: 32 word list, generation = 1, next_index = 2,
        first_parental_index = 0, lastN = 1, last_gc_time = 0\<rparr>"
  by (simp add: ancestry_tracker_def init_nodes.simps word_sless_alt)

lemma front_eq:
  "v \<noteq> [] \<Longrightarrow> front v = Inr (hd v)"
  "front [] = Inl OutOfBounds"
  by (simp_all add: front_def read_at_def hd_conv_nth)

lemma finish_generation_eq:
  "offspring_indexes s \<noteq> [] \<Longrightarrow> finish_generation s =
     Inr (s\<lparr>nodes := nodes s
                 @ map (\<lambda>oi. make_node oi (of_int (sint (generation s))) 0)
                     (offspring_indexes s),
             edges := edges s @ temp s,
             lastN := scast (next_index s - first_parental_index s),
             first_parental_index := hd (offspring_indexes s),
             temp := [],
             generation := generation s + 1\<rparr>)"
  by (simp add: finish_generation_def front_eq)


lemma Max_last:
  assumes "xs \<noteq> []" and "\<forall>x \<in> set xs. x \<le> last xs"
  shows "Max (set xs) = (last xs :: real)"
proof (rule Max_eqI)
  show "finite (set xs)" by simp
  show "y \<le> last xs" if "y \<in> set xs" for y
    using that assms(2) by blast
  from assms(1) show "last xs \<in> set xs" by simp
qed

lemma get_next_indexes_fields:
  "fst (get_next_indexes s) = (next_index s, next_index s + 1)"
  "next_index (snd (get_next_indexes s)) = next_index s + 2"
  "offspring_indexes (snd (get_next_indexes s))
     = offspring_indexes s @ [next_index s, next_index s + 1]"
  "nodes (snd (get_next_indexes s)) = nodes s"
  "edges (snd (get_next_indexes s)) = edges s"
  "temp (snd (get_next_indexes s)) = temp s"
  "generation (snd (get_next_indexes s)) = generation s"
  "first_parental_index (snd (get_next_indexes s)) = first_parental_index s"
  by (simp_all add: get_next_indexes_def Let_def)

lemma get_next_indexes_n_Suc:
  "get_next_indexes_n (Suc k) s =
     (fst (get_next_indexes s) # fst (get_next_indexes_n k (snd (get_next_indexes s))),
      snd (get_next_indexes_n k (snd (get_next_indexes s))))"
  by (simp add: Let_def split: prod.splits)

lemma get_next_indexes_n_frame:
  "nodes (snd (get_next_indexes_n k s)) = nodes s
   \<and> edges (snd (get_next_indexes_n k s)) = edges s
   \<and> temp (snd (get_next_indexes_n k s)) = temp s
   \<and> generation (snd (get_next_indexes_n k s)) = generation s
   \<and> first_parental_index (snd (get_next_indexes_n k s)) = first_parental_index s"
proof (induction k arbitrary: s)
  case 0
  show ?case by simp
next
  case (Suc k)
  from Suc [of "snd (get_next_indexes s)"] show ?case
    by (simp only: get_next_indexes_n_Suc snd_conv get_next_indexes_fields)
qed

lemma get_next_indexes_n_length:
  "length (fst (get_next_indexes_n k s)) = k"
proof (induction k arbitrary: s)
  case 0
  show ?case by simp
next
  case (Suc k)
  from Suc [of "snd (get_next_indexes s)"] show ?case
    by (simp only: get_next_indexes_n_Suc fst_conv length_Cons)
qed

lemma get_next_indexes_n_nth:
  "j < k \<Longrightarrow> fst (get_next_indexes_n k s) ! j
     = (next_index s + of_nat (2 * j), next_index s + of_nat (2 * j + 1))"
proof (induction k arbitrary: s j)
  case 0
  then show ?case by simp
next
  case (Suc k)
  show ?case
  proof (cases j)
    case 0
    then show ?thesis
      by (simp add: get_next_indexes_n_Suc get_next_indexes_fields
            del: get_next_indexes_n.simps)
  next
    case (Suc i)
    with Suc.prems have "i < k" by simp
    from Suc.IH [OF this, of "snd (get_next_indexes s)"] Suc show ?thesis
      by (simp add: get_next_indexes_n_Suc get_next_indexes_fields algebra_simps
            del: get_next_indexes_n.simps)
  qed
qed

lemma identities_length:
  "length (identities rvs) = 2 * length rvs"
  by (induction rvs rule: identities.induct) simp_all

lemma identities_nth:
  "j < length rvs \<Longrightarrow> identities rvs ! (2 * j) = fst (rvs ! j)
     \<and> identities rvs ! (2 * j + 1) = snd (rvs ! j)"
proof (induction rvs arbitrary: j rule: identities.induct)
  case 1
  then show ?case by simp
next
  case (2 a b rvs)
  show ?case
  proof (cases j)
    case 0
    then show ?thesis by simp
  next
    case (Suc i)
    with "2.prems" have "i < length rvs" by simp
    from "2.IH" [OF this] Suc show ?thesis by simp
  qed
qed

lemma get_next_indexes_n_identities_nth:
  assumes "i < 2 * k"
  shows "identities (fst (get_next_indexes_n k s)) ! i = next_index s + of_nat i"
proof -
  let ?rvs = "fst (get_next_indexes_n k s)"
  from assms have j: "i div 2 < k" by simp
  then have jl: "i div 2 < length ?rvs"
    by (simp add: get_next_indexes_n_length)
  show ?thesis
  proof (cases "even i")
    case True
    then have i: "i = 2 * (i div 2)" by simp
    from identities_nth [OF jl] have "identities ?rvs ! (2 * (i div 2)) = fst (?rvs ! (i div 2))"
      by simp
    with get_next_indexes_n_nth [OF j, of s] have
      "identities ?rvs ! (2 * (i div 2)) = next_index s + of_nat (2 * (i div 2))"
      by simp
    with i show ?thesis by simp
  next
    case False
    then have i: "i = 2 * (i div 2) + 1" by presburger
    from identities_nth [OF jl] have
      "identities ?rvs ! (2 * (i div 2) + 1) = snd (?rvs ! (i div 2))"
      by simp
    with get_next_indexes_n_nth [OF j, of s] have
      "identities ?rvs ! (2 * (i div 2) + 1) = next_index s + of_nat (2 * (i div 2) + 1)"
      by simp
    with i show ?thesis by simp
  qed
qed

lemma get_next_indexes_n_offspring:
  "offspring_indexes (snd (get_next_indexes_n k s))
     = offspring_indexes s @ identities (fst (get_next_indexes_n k s))"
proof (induction k arbitrary: s)
  case 0
  show ?case by simp
next
  case (Suc k)
  from Suc [of "snd (get_next_indexes s)"] show ?case
    by (simp only: get_next_indexes_n_Suc fst_conv snd_conv get_next_indexes_fields
          identities.simps) simp
qed

lemma identities_sint:
  fixes s :: "'w::len tracker"
  assumes "sint (next_index s) + 2 * int k - 1 < 2 ^ (LENGTH('w) - 1)"
  shows "map sint (identities (fst (get_next_indexes_n k s)))
           = [sint (next_index s)..sint (next_index s) + 2 * int k - 1]"
proof (rule nth_equalityI)
  let ?ids = "identities (fst (get_next_indexes_n k s))"
  have len: "length ?ids = 2 * k"
    by (simp add: identities_length get_next_indexes_n_length)
  then show "length (map sint ?ids)
      = length [sint (next_index s)..sint (next_index s) + 2 * int k - 1]"
    by simp
  fix i
  assume "i < length (map sint ?ids)"
  with len have i: "i < 2 * k" by simp
  with assms have "sint (next_index s) + int i < 2 ^ (LENGTH('w) - 1)"
    by simp
  from sint_add_of_nat [OF this] get_next_indexes_n_identities_nth [OF i, of s] len i
  have "map sint ?ids ! i = sint (next_index s) + int i"
    by simp
  moreover from i have
    "[sint (next_index s)..sint (next_index s) + 2 * int k - 1] ! i = sint (next_index s) + int i"
    by (intro nth_upto) simp
  ultimately show "map sint ?ids ! i
      = [sint (next_index s)..sint (next_index s) + 2 * int k - 1] ! i"
    by simp
qed






subsection \<open>The generation lifecycle\<close>

text \<open>
  C1, as the code has it: after \<^verbatim>\<open>finish_generation\<close> on a non-empty offspring-identity
  list the edge staging buffer \<^verbatim>\<open>temp\<close> is empty, and the offspring-identity list is
  what it was before the call (so still non-empty): the function clears \<^verbatim>\<open>temp\<close>
  only, and \<^verbatim>\<open>offspring_indexes\<close> stays available as the sample list for msprime.
\<close>

theorem finish_generation_clears_temp_only:
  assumes "offspring_indexes s \<noteq> []"
  shows "\<exists>s'. finish_generation s = Inr s'
           \<and> temp s' = []
           \<and> offspring_indexes s' = offspring_indexes s"
  using assms by (simp add: finish_generation_eq)

theorem finish_generation_clears_temp_only_witness:
  "offspring_indexes
      \<lparr>nodes = [make_node 0 0 0, make_node 1 0 0], edges = [], temp = [make_edge 0 1 0 2],
        offspring_indexes = [2, 3 :: 32 word], generation = 1, next_index = 4,
        first_parental_index = 0, lastN = 1, last_gc_time = 0\<rparr> \<noteq> []
   \<and> (\<exists>s'. finish_generation
      \<lparr>nodes = [make_node 0 0 0, make_node 1 0 0], edges = [], temp = [make_edge 0 1 0 2],
        offspring_indexes = [2, 3 :: 32 word], generation = 1, next_index = 4,
        first_parental_index = 0, lastN = 1, last_gc_time = 0\<rparr> = Inr s'
        \<and> temp s' = []
        \<and> offspring_indexes s' = [2, 3])"
  using finish_generation_clears_temp_only
    [of "\<lparr>nodes = [make_node 0 0 0, make_node 1 0 0], edges = [], temp = [make_edge 0 1 0 2],
        offspring_indexes = [2, 3 :: 32 word], generation = 1, next_index = 4,
        first_parental_index = 0, lastN = 1, last_gc_time = 0\<rparr>"]
  by simp

text \<open>
  C1 as the spec states it fails: a population of one diploid, one offspring pair,
  \<^verbatim>\<open>finish_generation\<close>. The offspring-identity list is \<open>[2, 3]\<close> before the call and
  after it.
\<close>

theorem finish_generation_keeps_offspring_indexes:
  "map_sum id offspring_indexes (run (ancestry_tracker (1 :: 32 word)) [GetNextIndexes])
     = Inr [2, 3]
   \<and> map_sum id offspring_indexes
       (run (ancestry_tracker (1 :: 32 word)) [GetNextIndexes, FinishGeneration])
     = Inr [2, 3]"
  by (simp add: founders_1 get_next_indexes_def finish_generation_eq)

text \<open>
  C2, as the code has it: \<open>k \<ge> 1\<close> calls of \<^verbatim>\<open>get_next_indexes\<close> in a row, none of
  which reaches beyond the largest value of \<^verbatim>\<open>integer_type\<close>, return \<open>k\<close> pairs whose
  \<open>2k\<close> identities are the integers from \<^verbatim>\<open>next_index\<close> upwards, distinct and strictly
  ascending, each pair starting 2 above the one before. The \<^verbatim>\<open>finish_generation\<close> that
  follows succeeds, increments the generation counter and appends one node, with the
  time of the counter before the increment, for every identity of the offspring-identity
  list: those the list held when the generation began and the \<open>2k\<close> new ones. When the
  list was empty at the beginning of the generation, these are exactly \<open>2k\<close> nodes.
\<close>

theorem offspring_pairs_then_finish:
  fixes s :: "'w::len tracker"
  assumes k: "1 \<le> k"
    and run: "get_next_indexes_n k s = (rvs, s1)"
    and fits: "sint (next_index s) + 2 * int k - 1 < 2 ^ (LENGTH('w) - 1)"
  shows "length rvs = k
    \<and> map sint (identities rvs) = [sint (next_index s)..sint (next_index s) + 2 * int k - 1]
    \<and> length (identities rvs) = 2 * k
    \<and> distinct (identities rvs)
    \<and> sorted_wrt word_sless (identities rvs)
    \<and> (\<forall>j. Suc j < k \<longrightarrow> sint (fst (rvs ! Suc j)) = sint (fst (rvs ! j)) + 2)
    \<and> (\<exists>s2. finish_generation s1 = Inr s2
          \<and> nodes s2 = nodes s
               @ map (\<lambda>oi. make_node oi (of_int (sint (generation s))) 0)
                   (offspring_indexes s @ identities rvs)
          \<and> generation s2 = generation s + 1
          \<and> (offspring_indexes s = [] \<longrightarrow>
               nodes s2 = nodes s
                 @ map (\<lambda>oi. make_node oi (of_int (sint (generation s))) 0) (identities rvs)
               \<and> length (nodes s2) = length (nodes s) + 2 * k))"
proof -
  from run have rvs: "rvs = fst (get_next_indexes_n k s)"
    and s1: "s1 = snd (get_next_indexes_n k s)"
    by simp_all
  have ids: "map sint (identities rvs)
      = [sint (next_index s)..sint (next_index s) + 2 * int k - 1]"
    unfolding rvs by (rule identities_sint [OF fits])
  have len: "length rvs = k"
    unfolding rvs by (rule get_next_indexes_n_length)
  have len_ids: "length (identities rvs) = 2 * k"
    by (simp add: identities_length len)
  have dist: "distinct (identities rvs)"
    by (rule distinct_of_sint) (simp only: ids distinct_upto)
  have asc: "sorted_wrt word_sless (identities rvs)"
    by (rule sorted_of_sint) (simp only: ids sorted_wrt_upto)
  have step: "sint (fst (rvs ! Suc j)) = sint (fst (rvs ! j)) + 2" if "Suc j < k" for j
  proof -
    from that have j: "j < k" by simp
    from that fits have a: "sint (next_index s) + int (2 * Suc j) < 2 ^ (LENGTH('w) - 1)"
      by simp
    from that fits have b: "sint (next_index s) + int (2 * j) < 2 ^ (LENGTH('w) - 1)"
      by simp
    from get_next_indexes_n_nth [OF that, of s] get_next_indexes_n_nth [OF j, of s]
      sint_add_of_nat [OF a] sint_add_of_nat [OF b]
    show ?thesis
      unfolding rvs by simp
  qed
  have off: "offspring_indexes s1 = offspring_indexes s @ identities rvs"
    unfolding s1 rvs by (rule get_next_indexes_n_offspring)
  from k len_ids have "identities rvs \<noteq> []"
    by auto
  with off have ne: "offspring_indexes s1 \<noteq> []"
    by simp
  have frame: "nodes s1 = nodes s" "generation s1 = generation s"
    unfolding s1 using get_next_indexes_n_frame [of k s] by simp_all
  let ?s2 = "s1\<lparr>nodes := nodes s1
                 @ map (\<lambda>oi. make_node oi (of_int (sint (generation s1))) 0)
                     (offspring_indexes s1),
             edges := edges s1 @ temp s1,
             lastN := scast (next_index s1 - first_parental_index s1),
             first_parental_index := hd (offspring_indexes s1),
             temp := [],
             generation := generation s1 + 1\<rparr>"
  from ne have fin: "finish_generation s1 = Inr ?s2"
    by (rule finish_generation_eq)
  have n2: "nodes ?s2 = nodes s
               @ map (\<lambda>oi. make_node oi (of_int (sint (generation s))) 0)
                   (offspring_indexes s @ identities rvs)"
    by (simp add: frame off)
  have g2: "generation ?s2 = generation s + 1"
    by (simp add: frame)
  have e2: "nodes ?s2 = nodes s
                 @ map (\<lambda>oi. make_node oi (of_int (sint (generation s))) 0) (identities rvs)
               \<and> length (nodes ?s2) = length (nodes s) + 2 * k" if "offspring_indexes s = []"
    using that by (simp add: frame off len_ids)
  from fin n2 g2 e2 have fin_ex: "\<exists>s2. finish_generation s1 = Inr s2
          \<and> nodes s2 = nodes s
               @ map (\<lambda>oi. make_node oi (of_int (sint (generation s))) 0)
                   (offspring_indexes s @ identities rvs)
          \<and> generation s2 = generation s + 1
          \<and> (offspring_indexes s = [] \<longrightarrow>
               nodes s2 = nodes s
                 @ map (\<lambda>oi. make_node oi (of_int (sint (generation s))) 0) (identities rvs)
               \<and> length (nodes s2) = length (nodes s) + 2 * k)"
    by blast
  from len ids len_ids dist asc step fin_ex show ?thesis
    by blast
qed

theorem offspring_pairs_then_finish_witness:
  "(1::nat) \<le> 2
   \<and> get_next_indexes_n 2
        \<lparr>nodes = [make_node 0 0 0, make_node 1 0 0], edges = [], temp = [],
        offspring_indexes = [] :: 32 word list, generation = 1, next_index = 2,
        first_parental_index = 0, lastN = 1, last_gc_time = 0\<rparr>
      = ([(2, 3), (4, 5)],
        \<lparr>nodes = [make_node 0 0 0, make_node 1 0 0], edges = [], temp = [],
        offspring_indexes = [2, 3, 4, 5 :: 32 word], generation = 1, next_index = 6,
        first_parental_index = 0, lastN = 1, last_gc_time = 0\<rparr>)
   \<and> sint (2 :: 32 word) + 2 * int 2 - 1 < 2 ^ (LENGTH(32) - 1)
   \<and> offspring_indexes
        \<lparr>nodes = [make_node 0 0 0, make_node 1 0 0], edges = [], temp = [],
        offspring_indexes = [] :: 32 word list, generation = 1, next_index = 2,
        first_parental_index = 0, lastN = 1, last_gc_time = 0\<rparr> = []
   \<and> identities [(2, 3), (4, 5 :: 32 word)] = [2, 3, 4, 5]
   \<and> distinct (identities [(2, 3), (4, 5 :: 32 word)])
   \<and> sorted_wrt word_sless (identities [(2, 3), (4, 5 :: 32 word)])
   \<and> (\<exists>s2. finish_generation
        \<lparr>nodes = [make_node 0 0 0, make_node 1 0 0], edges = [], temp = [],
        offspring_indexes = [2, 3, 4, 5 :: 32 word], generation = 1, next_index = 6,
        first_parental_index = 0, lastN = 1, last_gc_time = 0\<rparr> = Inr s2
        \<and> nodes s2 = [make_node 0 0 0, make_node 1 0 0, make_node 2 1 0, make_node 3 1 0,
                      make_node 4 1 0, make_node 5 1 0]
        \<and> length (nodes s2) = 2 + 2 * 2
        \<and> generation s2 = 2)"
proof -
  have h: "get_next_indexes_n 2
        \<lparr>nodes = [make_node 0 0 0, make_node 1 0 0], edges = [], temp = [],
        offspring_indexes = [] :: 32 word list, generation = 1, next_index = 2,
        first_parental_index = 0, lastN = 1, last_gc_time = 0\<rparr>
      = ([(2, 3), (4, 5)],
        \<lparr>nodes = [make_node 0 0 0, make_node 1 0 0], edges = [], temp = [],
        offspring_indexes = [2, 3, 4, 5 :: 32 word], generation = 1, next_index = 6,
        first_parental_index = 0, lastN = 1, last_gc_time = 0\<rparr>)"
    by (simp add: numeral_2_eq_2 get_next_indexes_def)
  have k: "(1::nat) \<le> 2"
    by simp
  have f: "sint (next_index
        \<lparr>nodes = [make_node 0 0 0, make_node 1 0 0], edges = [], temp = [],
        offspring_indexes = [] :: 32 word list, generation = 1, next_index = 2,
        first_parental_index = 0, lastN = 1, last_gc_time = 0\<rparr>) + 2 * int 2 - 1 < 2 ^ (LENGTH(32) - 1)"
    by simp
  from offspring_pairs_then_finish [OF k h f] h show ?thesis
    by auto
qed

text \<open>
  C2 as the spec states it fails twice. In a second generation \<^verbatim>\<open>finish_generation\<close>
  has left the two identities of the first generation in the list, so the one offspring
  pair of the second generation (\<open>k = 1\<close>) makes the node store grow from 4 nodes to 8,
  not to 6. And with 32 bits, after a reset to \<^verbatim>\<open>next_index\<close> \<open>= 2147483646\<close>, two
  offspring pairs have the identities \<open>2147483646, 2147483647, -2147483648,
  -2147483647\<close>, which do not ascend.
\<close>

theorem second_generation_or_wrap_around:
  "map_sum id (length \<circ> nodes)
     (run (ancestry_tracker (1 :: 32 word)) [GetNextIndexes, FinishGeneration])
     = Inr 4
   \<and> map_sum id (length \<circ> nodes)
       (run (ancestry_tracker (1 :: 32 word))
          [GetNextIndexes, FinishGeneration, GetNextIndexes, FinishGeneration])
     = Inr 8
   \<and> map_sum id (map sint \<circ> identities \<circ> fst \<circ> get_next_indexes_n 2)
       (run (ancestry_tracker (1 :: 32 word)) [PostProcessGc True 2147483646])
     = Inr [2147483646, 2147483647, - 2147483648, - 2147483647]"
  by (simp add: founders_1 get_next_indexes_def finish_generation_eq post_process_gc_def
        numeral_2_eq_2)




text \<open>
  C9: on a non-empty offspring-identity list, the read of \<^verbatim>\<open>finish_generation\<close> at
  index 0 is below the size of the list and gives its first element, and the function
  returns a state, with that element as \<^verbatim>\<open>first_parental_index\<close>: no read is out of
  bounds and nothing fails. On an empty list the read of \<^verbatim>\<open>front()\<close> is out of bounds and
  the behaviour undefined.
\<close>

theorem finish_generation_defined:
  "(offspring_indexes s \<noteq> [] \<longrightarrow>
      0 < length (offspring_indexes s)
      \<and> front (offspring_indexes s) = Inr (offspring_indexes s ! 0)
      \<and> (\<exists>s'. finish_generation s = Inr s'
            \<and> first_parental_index s' = offspring_indexes s ! 0))
   \<and> (offspring_indexes s = [] \<longrightarrow>
        front (offspring_indexes s) = Inl OutOfBounds
        \<and> finish_generation s = Inl OutOfBounds)"
  by (simp add: finish_generation_def front_def read_at_def)

theorem finish_generation_defined_witness:
  "offspring_indexes
      \<lparr>nodes = [make_node 0 0 0, make_node 1 0 0], edges = [], temp = [make_edge 0 1 0 2],
        offspring_indexes = [2, 3 :: 32 word], generation = 1, next_index = 4,
        first_parental_index = 0, lastN = 1, last_gc_time = 0\<rparr> \<noteq> []
   \<and> front (offspring_indexes
      \<lparr>nodes = [make_node 0 0 0, make_node 1 0 0], edges = [], temp = [make_edge 0 1 0 2],
        offspring_indexes = [2, 3 :: 32 word], generation = 1, next_index = 4,
        first_parental_index = 0, lastN = 1, last_gc_time = 0\<rparr>) = Inr 2
   \<and> (\<exists>s'. finish_generation
      \<lparr>nodes = [make_node 0 0 0, make_node 1 0 0], edges = [], temp = [make_edge 0 1 0 2],
        offspring_indexes = [2, 3 :: 32 word], generation = 1, next_index = 4,
        first_parental_index = 0, lastN = 1, last_gc_time = 0\<rparr> = Inr s' \<and> first_parental_index s' = 2)
   \<and> offspring_indexes
      \<lparr>nodes = [make_node 0 0 0, make_node 1 0 0], edges = [], temp = [],
        offspring_indexes = [] :: 32 word list, generation = 1, next_index = 2,
        first_parental_index = 0, lastN = 1, last_gc_time = 0\<rparr> = []
   \<and> finish_generation
      \<lparr>nodes = [make_node 0 0 0, make_node 1 0 0], edges = [], temp = [],
        offspring_indexes = [] :: 32 word list, generation = 1, next_index = 2,
        first_parental_index = 0, lastN = 1, last_gc_time = 0\<rparr> = Inl OutOfBounds"
  using finish_generation_defined
    [of "\<lparr>nodes = [make_node 0 0 0, make_node 1 0 0], edges = [], temp = [make_edge 0 1 0 2],
        offspring_indexes = [2, 3 :: 32 word], generation = 1, next_index = 4,
        first_parental_index = 0, lastN = 1, last_gc_time = 0\<rparr>"]
    finish_generation_defined
    [of "\<lparr>nodes = [make_node 0 0 0, make_node 1 0 0], edges = [], temp = [],
        offspring_indexes = [] :: 32 word list, generation = 1, next_index = 2,
        first_parental_index = 0, lastN = 1, last_gc_time = 0\<rparr>"]
  by simp

subsection \<open>The constructor and the index allocator\<close>

text \<open>
  C7, as the code has it: for every \<open>N > 0\<close> whose double \<open>2N\<close> does not exceed the
  largest value of \<^verbatim>\<open>integer_type\<close>, the constructor returns a tracker whose node store
  holds exactly \<open>2N\<close> nodes, with the ids \<open>0, \<dots>, 2N - 1\<close> in this order (distinct and
  ascending), each of time 0 and population 0; \<^verbatim>\<open>next_index\<close> is \<open>2N\<close> and
  \<^verbatim>\<open>first_parental_index\<close> is 0.
\<close>

theorem initialize_founders:
  fixes N :: "'w::len word"
  assumes "0 < sint N" and "2 * sint N < 2 ^ (LENGTH('w) - 1)"
  shows "\<exists>s. ancestry_tracker N = Inr s
           \<and> length (nodes s) = nat (2 * sint N)
           \<and> map sint (map node_id (nodes s)) = [0..2 * sint N - 1]
           \<and> distinct (map node_id (nodes s))
           \<and> sorted_wrt word_sless (map node_id (nodes s))
           \<and> (\<forall>n \<in> set (nodes s). node_generation n = 0 \<and> node_population n = 0)
           \<and> sint (next_index s) = 2 * sint N
           \<and> first_parental_index s = 0"
proof -
  from assms(1) have N: "0 \<le> sint N" by simp
  let ?s = "\<lparr>nodes = map (\<lambda>j. make_node (word_of_int j :: 'w word) 0 0) [0..2 * sint N - 1],
          edges = [], temp = [], offspring_indexes = [], generation = 1, next_index = 2 * N,
          first_parental_index = 0, lastN = scast N, last_gc_time = 0\<rparr>"
  have ctor: "ancestry_tracker N = Inr ?s"
    by (rule ancestry_tracker_nodes [OF N assms(2)])
  have ids: "map sint (map node_id (nodes ?s)) = [0..2 * sint N - 1]"
    using founders_ids [OF assms(2)] by (simp add: make_node_def comp_def)
  have len: "length (nodes ?s) = nat (2 * sint N)"
    by simp
  have dist: "distinct (map node_id (nodes ?s))"
    by (rule distinct_of_sint) (simp only: ids distinct_upto)
  have asc: "sorted_wrt word_sless (map node_id (nodes ?s))"
    by (rule sorted_of_sint) (simp only: ids sorted_wrt_upto)
  have zero: "\<forall>n \<in> set (nodes ?s). node_generation n = 0 \<and> node_population n = 0"
    by (auto simp: make_node_def)
  have nxt: "sint (next_index ?s) = 2 * sint N"
    using sint_double [OF N assms(2)] by simp
  have fpi: "first_parental_index ?s = 0"
    by simp
  from ctor len ids dist asc zero nxt fpi show ?thesis
    by blast
qed

theorem initialize_founders_witness:
  "0 < sint (1 :: 32 word) \<and> 2 * sint (1 :: 32 word) < 2 ^ (LENGTH(32) - 1)
     \<and> (\<exists>s. ancestry_tracker (1 :: 32 word) = Inr s
           \<and> length (nodes s) = 2
           \<and> map node_id (nodes s) = [0, 1]
           \<and> distinct (map node_id (nodes s))
           \<and> sorted_wrt word_sless (map node_id (nodes s))
           \<and> (\<forall>n \<in> set (nodes s). node_generation n = 0 \<and> node_population n = 0)
           \<and> next_index s = 2
           \<and> first_parental_index s = 0)"
proof -
  have a: "0 < sint (1 :: 32 word)" by simp
  have b: "2 * sint (1 :: 32 word) < 2 ^ (LENGTH(32) - 1)" by simp
  have c: "ancestry_tracker (1 :: 32 word) =
     Inr \<lparr>nodes = [make_node 0 0 0, make_node 1 0 0], edges = [], temp = [],
          offspring_indexes = [], generation = 1, next_index = 2,
          first_parental_index = 0, lastN = 1, last_gc_time = 0\<rparr>"
    by (simp add: ancestry_tracker_def init_nodes.simps word_sless_alt)
  from initialize_founders [OF a b] a b c show ?thesis
    by (auto simp: make_node_def)
qed

text \<open>
  C7 as the spec states it fails for a large \<open>N\<close>: with 32 bits and \<open>N = 2^30\<close> the
  product \<open>2 * N\<close> wraps around to \<open>-2^31\<close>, \<^verbatim>\<open>nodes.reserve(2 * N)\<close> throws, and no
  tracker is built.
\<close>

theorem large_population_is_refused:
  "ancestry_tracker (1073741824 :: 32 word) = Inl LengthError"
  by (simp add: ancestry_tracker_def)

text \<open>
  C8: for every ordinal \<open>p\<close> and every boolean \<open>swapped\<close> (passed as 1 or 0),
  \<^verbatim>\<open>get_parent_ids\<close> returns the pair \<open>(first_parental_index + 2p + swapped,
  first_parental_index + 2p + !swapped)\<close>. Its two identities are distinct, they are
  \<open>first_parental_index + 2p\<close> and \<open>first_parental_index + 2p + 1\<close> whatever \<open>swapped\<close>
  is, and the other value of \<open>swapped\<close> returns the same pair in the other order.
\<close>

theorem get_parent_ids_swap:
  "get_parent_ids s p (of_bool swapped) =
     (first_parental_index s + 2 * ucast p + of_bool swapped,
      first_parental_index s + 2 * ucast p + of_bool (\<not> swapped))
   \<and> fst (get_parent_ids s p (of_bool swapped)) \<noteq> snd (get_parent_ids s p (of_bool swapped))
   \<and> {fst (get_parent_ids s p (of_bool swapped)), snd (get_parent_ids s p (of_bool swapped))}
       = {first_parental_index s + 2 * ucast p, first_parental_index s + 2 * ucast p + 1}
   \<and> get_parent_ids s p (of_bool (\<not> swapped)) = prod.swap (get_parent_ids s p (of_bool swapped))"
  by (cases swapped) (auto simp: get_parent_ids_def)

subsection \<open>The simplification adapter\<close>

text \<open>
  C4, as the code has it: on a non-empty node store \<^verbatim>\<open>prep_for_gc\<close> sets every node's
  time to the negation of (its original time minus the original time of the last node
  of the store), and leaves the edge store, the generation counter and the identity
  counters as they are. Where no node's time exceeds the last node's, the last node's
  time is the maximum over the store, and \<^verbatim>\<open>prep_for_gc\<close> does what the spec's prepare
  phase does.
\<close>

theorem prep_for_gc_last_node:
  assumes "nodes s \<noteq> []"
  shows "nodes (prep_for_gc s)
           = map (\<lambda>n. n\<lparr>node_generation :=
                          - (node_generation n - node_generation (last (nodes s)))\<rparr>) (nodes s)
    \<and> edges (prep_for_gc s) = edges s
    \<and> generation (prep_for_gc s) = generation s
    \<and> next_index (prep_for_gc s) = next_index s
    \<and> first_parental_index (prep_for_gc s) = first_parental_index s
    \<and> ((\<forall>n \<in> set (nodes s). node_generation n \<le> node_generation (last (nodes s)))
         \<longrightarrow> node_generation (last (nodes s)) = Max (set (map node_generation (nodes s)))
             \<and> prep_for_gc s = spec_prepare_for_simplification s)"
proof -
  have "Max (set (map node_generation (nodes s))) = node_generation (last (nodes s))"
    if "\<forall>n \<in> set (nodes s). node_generation n \<le> node_generation (last (nodes s))"
    using Max_last [of "map node_generation (nodes s)"] assms that
    by (simp add: last_map)
  with assms show ?thesis
    by (simp add: prep_for_gc_def spec_prepare_for_simplification_def Let_def)
qed

theorem prep_for_gc_last_node_witness:
  "nodes
      \<lparr>nodes = [make_node 0 0 0, make_node 1 0 0, make_node 2 1 0, make_node 3 1 0],
        edges = [], temp = [], offspring_indexes = [2, 3 :: 32 word], generation = 2,
        next_index = 4, first_parental_index = 2, lastN = 4, last_gc_time = 0\<rparr> \<noteq> []
   \<and> list_all (\<lambda>n. node_generation n \<le> 1) (nodes
      \<lparr>nodes = [make_node 0 0 0, make_node 1 0 0, make_node 2 1 0, make_node 3 1 0],
        edges = [], temp = [], offspring_indexes = [2, 3 :: 32 word], generation = 2,
        next_index = 4, first_parental_index = 2, lastN = 4, last_gc_time = 0\<rparr>)
   \<and> node_generation (last (nodes
      \<lparr>nodes = [make_node 0 0 0, make_node 1 0 0, make_node 2 1 0, make_node 3 1 0],
        edges = [], temp = [], offspring_indexes = [2, 3 :: 32 word], generation = 2,
        next_index = 4, first_parental_index = 2, lastN = 4, last_gc_time = 0\<rparr>)) = 1
   \<and> map node_generation (nodes (prep_for_gc
      \<lparr>nodes = [make_node 0 0 0, make_node 1 0 0, make_node 2 1 0, make_node 3 1 0],
        edges = [], temp = [], offspring_indexes = [2, 3 :: 32 word], generation = 2,
        next_index = 4, first_parental_index = 2, lastN = 4, last_gc_time = 0\<rparr>)) = [1, 1, 0, 0]
   \<and> prep_for_gc
      \<lparr>nodes = [make_node 0 0 0, make_node 1 0 0, make_node 2 1 0, make_node 3 1 0],
        edges = [], temp = [], offspring_indexes = [2, 3 :: 32 word], generation = 2,
        next_index = 4, first_parental_index = 2, lastN = 4, last_gc_time = 0\<rparr>
     = spec_prepare_for_simplification
      \<lparr>nodes = [make_node 0 0 0, make_node 1 0 0, make_node 2 1 0, make_node 3 1 0],
        edges = [], temp = [], offspring_indexes = [2, 3 :: 32 word], generation = 2,
        next_index = 4, first_parental_index = 2, lastN = 4, last_gc_time = 0\<rparr>"
  using prep_for_gc_last_node
    [of "\<lparr>nodes = [make_node 0 0 0, make_node 1 0 0, make_node 2 1 0, make_node 3 1 0],
        edges = [], temp = [], offspring_indexes = [2, 3 :: 32 word], generation = 2,
        next_index = 4, first_parental_index = 2, lastN = 4, last_gc_time = 0\<rparr>"]
  by (simp add: make_node_def prep_for_gc_def spec_prepare_for_simplification_def)

text \<open>
  C4 as the spec states it fails where the last node is not the latest: after one
  generation and one \<^verbatim>\<open>prep_for_gc\<close> the times are \<open>[1, 1, 0, 0]\<close>, with maximum 1. A
  second \<^verbatim>\<open>prep_for_gc\<close> subtracts the last node's time 0 and gives \<open>[-1, -1, 0, 0]\<close>;
  the negation of (time minus maximum) is \<open>[0, 0, 1, 1]\<close>.
\<close>

theorem prep_for_gc_twice:
  "map_sum id (map node_generation \<circ> nodes)
     (run (ancestry_tracker (1 :: 32 word)) [GetNextIndexes, FinishGeneration, PrepForGc])
     = Inr [1, 1, 0, 0]
   \<and> map_sum id (map node_generation \<circ> nodes \<circ> prep_for_gc)
       (run (ancestry_tracker (1 :: 32 word)) [GetNextIndexes, FinishGeneration, PrepForGc])
     = Inr [- 1, - 1, 0, 0]
   \<and> map_sum id (map node_generation \<circ> nodes \<circ> spec_prepare_for_simplification)
       (run (ancestry_tracker (1 :: 32 word)) [GetNextIndexes, FinishGeneration, PrepForGc])
     = Inr [0, 0, 1, 1]"
  by (simp add: founders_1 get_next_indexes_def finish_generation_eq prep_for_gc_def
        spec_prepare_for_simplification_def make_node_def)

text \<open>
  C5: after \<^verbatim>\<open>post_process_gc\<close> with a true flag and the new index \<open>X\<close>, the node store
  and the edge store are empty, \<^verbatim>\<open>next_index\<close> is \<open>X\<close>, \<^verbatim>\<open>first_parental_index\<close> is 0
  and \<^verbatim>\<open>last_gc_time\<close> is the generation counter of the state the call was made on.
\<close>

theorem post_process_gc_reset:
  "nodes (post_process_gc s True X) = []
   \<and> edges (post_process_gc s True X) = []
   \<and> next_index (post_process_gc s True X) = X
   \<and> first_parental_index (post_process_gc s True X) = 0
   \<and> last_gc_time (post_process_gc s True X) = of_int (sint (generation s))"
  by (simp add: post_process_gc_def)

text \<open>
  C6: \<^verbatim>\<open>post_process_gc\<close> with a false flag returns the tracker it was given, whatever
  the state and the index argument.
\<close>

theorem post_process_gc_noop:
  "post_process_gc s False X = s"
  by (simp add: post_process_gc_def)

text \<open>
  C10: \<^verbatim>\<open>post_process_gc\<close> with a true flag leaves the edge staging buffer, the
  offspring-identity list, the generation counter and \<^verbatim>\<open>lastN\<close> as they are; the state
  it returns differs from the one it was given in the node store, the edge store,
  \<^verbatim>\<open>next_index\<close>, \<^verbatim>\<open>first_parental_index\<close> and \<^verbatim>\<open>last_gc_time\<close> at most.
\<close>

theorem post_process_gc_frame:
  "temp (post_process_gc s True X) = temp s
   \<and> offspring_indexes (post_process_gc s True X) = offspring_indexes s
   \<and> generation (post_process_gc s True X) = generation s
   \<and> lastN (post_process_gc s True X) = lastN s
   \<and> post_process_gc s True X =
       s\<lparr>nodes := nodes (post_process_gc s True X),
         edges := edges (post_process_gc s True X),
         next_index := next_index (post_process_gc s True X),
         first_parental_index := first_parental_index (post_process_gc s True X),
         last_gc_time := last_gc_time (post_process_gc s True X)\<rparr>"
  by (simp add: post_process_gc_def)

end
